theory Spec2Isabelle
  imports Complex_Main "HOL-Library.Word" "HOL-Library.Log_Nat"
begin

unbundle bit_operations_syntax

section \<open>TMP006 driver: constants\<close>

text \<open>
  The module-level constants of \<^verbatim>\<open>Adafruit_TMP/TMP006.py\<close>. Python integers are
  unbounded, so they are \<^typ>\<open>int\<close>; the bit operations of \<^typ>\<open>int\<close> are those of
  Python (two's complement of unbounded width).
\<close>

definition TMP006_CONFIG :: int where "TMP006_CONFIG = 0x02"
definition TMP006_MANID :: int where "TMP006_MANID = 0xFE"
definition TMP006_DEVID :: int where "TMP006_DEVID = 0xFF"
definition TMP006_VOBJ :: int where "TMP006_VOBJ = 0x0"
definition TMP006_TAMB :: int where "TMP006_TAMB = 0x01"

definition TMP006_CFG_RESET :: int where "TMP006_CFG_RESET = 0x8000"
definition TMP006_CFG_MODEON :: int where "TMP006_CFG_MODEON = 0x7000"
definition CFG_1SAMPLE :: int where "CFG_1SAMPLE = 0x0000"
definition CFG_2SAMPLE :: int where "CFG_2SAMPLE = 0x0200"
definition CFG_4SAMPLE :: int where "CFG_4SAMPLE = 0x0400"
definition CFG_8SAMPLE :: int where "CFG_8SAMPLE = 0x0600"
definition CFG_16SAMPLE :: int where "CFG_16SAMPLE = 0x0800"
definition TMP006_CFG_DRDYEN :: int where "TMP006_CFG_DRDYEN = 0x0100"
definition TMP006_CFG_DRDY :: int where "TMP006_CFG_DRDY = 0x0080"

section \<open>The driver object and its transport\<close>

text \<open>
  A \<^verbatim>\<open>TMP006\<close> object holds a bus handle \<^verbatim>\<open>self._device\<close> and a logger
  \<^verbatim>\<open>self._logger\<close>. The state threaded through every method is: the 16-bit register
  file of the sensor behind the handle (the value each register holds in the device's own
  big-endian convention), the bus transactions issued so far, and the debug records
  handed to the logger so far.
\<close>

datatype xfer = Write16 int int | ReadU16BE int | ReadS16BE int

datatype logmsg =
    LogSamplerate int | LogManufacturerID int | LogDeviceID int
  | LogSleep | LogWake | LogRawVoltage int | LogRawTemperature int | LogVobj | LogTdie

text \<open>
  The exceptions the methods can end with. \<open>Unmodelled\<close> is not one of Python's: it marks
  a call of \<^verbatim>\<open>math.pow\<close> outside the calls described below, so that no result is
  ever computed from such a call.
\<close>

datatype error = ValueError | ZeroDivisionError | OverflowError | Unmodelled

record tmp006 =
  regs :: "int \<Rightarrow> 16 word"
  bus :: "xfer list"
  logged :: "logmsg list"

definition debug :: "logmsg \<Rightarrow> tmp006 \<Rightarrow> tmp006" where
  "debug m s = s\<lparr>logged := logged s @ [m]\<rparr>"

text \<open>
  The transport (\<^verbatim>\<open>Adafruit_GPIO.I2C\<close>) is an external library. Its three primitives
  are modelled by the byte-order contract that the comment in \<^verbatim>\<open>begin\<close> and the spec
  give: \<^verbatim>\<open>write16\<close> puts the low byte of its argument on the wire first, and the
  sensor takes the first byte as the high byte of the register; \<^verbatim>\<open>readU16BE\<close> and
  \<^verbatim>\<open>readS16BE\<close> return the register in the sensor's byte order, unsigned or as
  two's complement.
\<close>

definition on_wire :: "int \<Rightarrow> 16 word" where
  "on_wire v = word_of_int (push_bit 8 (v AND 0xFF) OR (drop_bit 8 v AND 0xFF))"

definition write16 :: "int \<Rightarrow> int \<Rightarrow> tmp006 \<Rightarrow> tmp006" where
  "write16 reg v s = s\<lparr>regs := (regs s)(reg := on_wire v), bus := bus s @ [Write16 reg v]\<rparr>"

definition readU16BE :: "int \<Rightarrow> tmp006 \<Rightarrow> int \<times> tmp006" where
  "readU16BE reg s = (uint (regs s reg), s\<lparr>bus := bus s @ [ReadU16BE reg]\<rparr>)"

definition readS16BE :: "int \<Rightarrow> tmp006 \<Rightarrow> int \<times> tmp006" where
  "readS16BE reg s = (sint (regs s reg), s\<lparr>bus := bus s @ [ReadS16BE reg]\<rparr>)"

section \<open>Configuration and power state\<close>

text \<open>
  \<^verbatim>\<open>begin(samplerate)\<close>, named \<open>begin_tmp006\<close> here (\<open>begin\<close> is a keyword). A
  raised exception is \<^term>\<open>Inl\<close>; the state is returned beside the result so that what
  happened before a raise stays visible.
\<close>

definition begin_tmp006 :: "int \<Rightarrow> tmp006 \<Rightarrow> (error + bool) \<times> tmp006" where
  "begin_tmp006 samplerate s =
    (if samplerate \<notin> set [CFG_1SAMPLE, CFG_2SAMPLE, CFG_4SAMPLE, CFG_8SAMPLE, CFG_16SAMPLE]
     then (Inl ValueError, s)
     else
       let s1 = debug (LogSamplerate samplerate) s;
           config = TMP006_CFG_MODEON OR TMP006_CFG_DRDYEN OR samplerate;
           config = push_bit 8 (config AND 0xFF) OR drop_bit 8 config;
           s2 = write16 TMP006_CONFIG config s1;
           (mid, s3) = readU16BE TMP006_MANID s2;
           (did, s4) = readU16BE TMP006_DEVID s3;
           s5 = debug (LogManufacturerID mid) s4;
           s6 = debug (LogDeviceID did) s5
       in (Inr (mid = 0x5449 \<and> did = 0x0067), s6))"

definition sleep :: "tmp006 \<Rightarrow> tmp006" where
  "sleep s =
    (let (control, s1) = readU16BE TMP006_CONFIG s;
         control = control AND NOT TMP006_CFG_MODEON;
         s2 = write16 TMP006_CONFIG control s1
     in debug LogSleep s2)"

definition wake :: "tmp006 \<Rightarrow> tmp006" where
  "wake s =
    (let (control, s1) = readU16BE TMP006_CONFIG s;
         control = control OR TMP006_CFG_MODEON;
         s2 = write16 TMP006_CONFIG control s1
     in debug LogWake s2)"

section \<open>Raw register access\<close>

definition readRawVoltage :: "tmp006 \<Rightarrow> int \<times> tmp006" where
  "readRawVoltage s =
    (let (raw, s1) = readS16BE TMP006_VOBJ s
     in (raw, debug (LogRawVoltage raw) s1))"

definition readRawDieTemperature :: "tmp006 \<Rightarrow> int \<times> tmp006" where
  "readRawDieTemperature s =
    (let (raw, s1) = readS16BE TMP006_TAMB s
     in (drop_bit 2 raw, debug (LogRawTemperature raw) s1))"

text \<open>The 16-bit words the driver handed to \<^verbatim>\<open>write16\<close> for one register, oldest first.\<close>

fun written :: "int \<Rightarrow> xfer list \<Rightarrow> int list" where
  "written reg [] = []"
| "written reg (Write16 r v # xs) = (if r = reg then v # written reg xs else written reg xs)"
| "written reg (ReadU16BE r # xs) = written reg xs"
| "written reg (ReadS16BE r # xs) = written reg xs"

text \<open>The byte swap of a 16-bit value, and the mode-on field of a configuration word.\<close>

definition byte_swap :: "int \<Rightarrow> int" where
  "byte_swap v = push_bit 8 (v AND 0xFF) OR (drop_bit 8 v AND 0xFF)"

definition mode_on :: "int \<Rightarrow> int" where
  "mode_on c = c AND TMP006_CFG_MODEON"

section \<open>Double-precision arithmetic\<close>

text \<open>
  Python's \<^verbatim>\<open>float\<close> is the IEEE-754 binary64 format with round-to-nearest, ties to
  even. A finite double is modelled by the rational number it denotes (the two zeros are
  not told apart; they compare equal in Python), the other doubles by three constants.

  \<open>ilog2 x\<close> is the binade of a positive rational, \<open>\<lfloor>log\<^sub>2 x\<rfloor>\<close>; \<open>round64 x\<close> is the
  nearest multiple of the unit in the last place of that binade (53 significant bits,
  gradual underflow below \<open>2\<^sup>-\<^sup>1\<^sup>0\<^sup>2\<^sup>2\<close>), and \<open>to_double\<close> turns a magnitude that rounds
  to \<open>2\<^sup>1\<^sup>0\<^sup>2\<^sup>4\<close> or more into an infinity.
\<close>

datatype double = Finite rat | PInf | NInf | NaN

definition ilog2 :: "rat \<Rightarrow> int" where
  "ilog2 x = (if 1 \<le> x then bitlen \<lfloor>x\<rfloor> - 1 else - bitlen (\<lceil>1 / x\<rceil> - 1))"

definition round_half_even :: "rat \<Rightarrow> int" where
  "round_half_even q =
    (let f = \<lfloor>q\<rfloor>; r = q - of_int f
     in if r < 1 / 2 then f else if 1 / 2 < r then f + 1 else if even f then f else f + 1)"

definition ulp_exp :: "rat \<Rightarrow> int" where
  "ulp_exp x = max (ilog2 \<bar>x\<bar>) (- 1022) - 52"

definition round64 :: "rat \<Rightarrow> rat" where
  "round64 x =
    (if x = 0 then 0
     else let u = 2 powi ulp_exp x in of_int (round_half_even (x / u)) * u)"

definition overflow_threshold :: rat where
  "overflow_threshold = 2 ^ 1024"

definition to_double :: "rat \<Rightarrow> double" where
  "to_double x =
    (let y = round64 x
     in if \<bar>y\<bar> < overflow_threshold then Finite y else if 0 < x then PInf else NInf)"

fun fsign :: "double \<Rightarrow> int" where
  "fsign (Finite x) = \<lfloor>sgn x\<rfloor>"
| "fsign PInf = 1"
| "fsign NInf = - 1"
| "fsign NaN = 0"

definition signed_inf :: "int \<Rightarrow> double" where
  "signed_inf s = (if s = 0 then NaN else if 0 < s then PInf else NInf)"

fun fneg :: "double \<Rightarrow> double" where
  "fneg (Finite x) = Finite (- x)"
| "fneg PInf = NInf"
| "fneg NInf = PInf"
| "fneg NaN = NaN"

fun fadd :: "double \<Rightarrow> double \<Rightarrow> double" where
  "fadd (Finite a) (Finite b) = to_double (a + b)"
| "fadd NaN y = NaN"
| "fadd x NaN = NaN"
| "fadd PInf NInf = NaN"
| "fadd NInf PInf = NaN"
| "fadd PInf y = PInf"
| "fadd NInf y = NInf"
| "fadd x PInf = PInf"
| "fadd x NInf = NInf"

definition fsub :: "double \<Rightarrow> double \<Rightarrow> double" where
  "fsub x y = fadd x (fneg y)"

fun fmul :: "double \<Rightarrow> double \<Rightarrow> double" where
  "fmul (Finite a) (Finite b) = to_double (a * b)"
| "fmul NaN y = NaN"
| "fmul x NaN = NaN"
| "fmul x y = signed_inf (fsign x * fsign y)"

text \<open>Python's \<^verbatim>\<open>/\<close> on floats raises \<^verbatim>\<open>ZeroDivisionError\<close> when the divisor is zero.\<close>

fun fdiv :: "double \<Rightarrow> double \<Rightarrow> error + double" where
  "fdiv x (Finite b) =
     (if b = 0 then Inl ZeroDivisionError
      else case x of Finite a \<Rightarrow> Inr (to_double (a / b))
                   | NaN \<Rightarrow> Inr NaN
                   | _ \<Rightarrow> Inr (signed_inf (fsign x * \<lfloor>sgn b\<rfloor>)))"
| "fdiv x NaN = Inr NaN"
| "fdiv (Finite a) y = Inr (Finite 0)"
| "fdiv NaN y = Inr NaN"
| "fdiv x y = Inr NaN"

text \<open>
  The arithmetic a method computes with. The operators \<^verbatim>\<open>*\<close>, \<^verbatim>\<open>+\<close>, \<^verbatim>\<open>-\<close>,
  \<^verbatim>\<open>/\<close>, the conversion of an \<^verbatim>\<open>int\<close> operand and the reading of a decimal literal
  are fixed by IEEE-754 and given by \<open>binary64\<close> below. \<^verbatim>\<open>math.pow\<close> and
  \<^verbatim>\<open>math.sqrt\<close> come from the platform's C library and may raise; they are the two
  further fields of \<open>libm\<close>. The only integers converted are 16-bit register values,
  far inside the range where the conversion is exact.
\<close>

record 'f arith =
  from_int :: "int \<Rightarrow> 'f"
  lit :: "rat \<Rightarrow> 'f"
  add :: "'f \<Rightarrow> 'f \<Rightarrow> 'f"
  sub :: "'f \<Rightarrow> 'f \<Rightarrow> 'f"
  mul :: "'f \<Rightarrow> 'f \<Rightarrow> 'f"
  divide_f :: "'f \<Rightarrow> 'f \<Rightarrow> error + 'f"

record 'f libm = "'f arith" +
  pow :: "'f \<Rightarrow> 'f \<Rightarrow> error + 'f"
  sqrt_f :: "'f \<Rightarrow> error + 'f"

definition binary64 :: "double arith" where
  "binary64 = \<lparr>from_int = (\<lambda>k. to_double (of_int k)), lit = to_double,
     add = fadd, sub = fsub, mul = fmul, divide_f = fdiv\<rparr>"

text \<open>
  \<^verbatim>\<open>math.sqrt\<close> raises \<^verbatim>\<open>ValueError\<close> on a negative argument and is correctly
  rounded otherwise: \<open>isqrt\<close> is the integer square root, found bit by bit from the top,
  and \<open>sqrt_round\<close> scales the argument so that the integer square root carries the 53
  significant bits, then rounds on the remainder.
\<close>

fun isqrt_bits :: "nat \<Rightarrow> int \<Rightarrow> int \<Rightarrow> int" where
  "isqrt_bits 0 q r = r"
| "isqrt_bits (Suc k) q r =
     (let r' = r + 2 ^ k in if r' * r' \<le> q then isqrt_bits k q r' else isqrt_bits k q r)"

definition isqrt :: "int \<Rightarrow> int" where
  "isqrt q = isqrt_bits (nat (bitlen q)) q 0"

definition sqrt_round :: "rat \<Rightarrow> rat" where
  "sqrt_round x =
    (if x \<le> 0 then 0
     else let e = max (ilog2 x div 2) (- 1022) - 52;
              q = x / 2 powi (2 * e);
              n = isqrt \<lfloor>q\<rfloor>;
              h = (of_int n + 1 / 2) * (of_int n + 1 / 2)
          in of_int (if q < h then n else if h < q then n + 1 else if even n then n else n + 1)
               * 2 powi e)"

fun sqrt64 :: "double \<Rightarrow> error + double" where
  "sqrt64 (Finite x) = (if x < 0 then Inl ValueError else Inr (Finite (sqrt_round x)))"
| "sqrt64 PInf = Inr PInf"
| "sqrt64 NInf = Inl ValueError"
| "sqrt64 NaN = Inr NaN"

text \<open>
  \<^verbatim>\<open>math.pow\<close> is the \<open>pow\<close> of the platform's C library, which is accurate to
  less than one unit in the last place but need not return the nearest double. It is
  therefore a parameter: \<open>ieee_libm pw\<close> is the double arithmetic with \<open>pw\<close> for
  \<^verbatim>\<open>math.pow\<close>. What is asked of \<open>pw\<close> is \<open>faithful_pow\<close>: where the driver calls
  it, with the exponent 2.0 or 4.0 and a base of magnitude at most 1024, it returns one of
  \<open>pow_candidates\<close>, the double just below and the double just above the exact power
  (both are the power itself when it is a double).

  \<open>pow_nearest\<close>, the correctly rounded power for an integer exponent, is one faithful
  \<open>pw\<close> among others; \<open>libm64\<close> is the arithmetic with it. Neither stands for the
  platform: they are the instance at which hypotheses are discharged.
\<close>

definition pow_candidates :: "rat \<Rightarrow> int \<Rightarrow> rat list" where
  "pow_candidates x n =
    (let v = x powi n; u = 2 powi ulp_exp v
     in [of_int \<lfloor>v / u\<rfloor> * u, of_int \<lceil>v / u\<rceil> * u])"

definition faithful_pow :: "(double \<Rightarrow> double \<Rightarrow> error + double) \<Rightarrow> bool" where
  "faithful_pow pw \<longleftrightarrow>
    (\<forall>x n. \<bar>x\<bar> \<le> 1024 \<and> (n = 2 \<or> n = 4) \<longrightarrow>
       (\<exists>r\<in>set (pow_candidates x n). pw (Finite x) (Finite (of_int n)) = Inr (Finite r)))"

definition ieee_libm :: "(double \<Rightarrow> double \<Rightarrow> error + double) \<Rightarrow> double libm" where
  "ieee_libm pw = \<lparr>from_int = (\<lambda>k. to_double (of_int k)), lit = to_double,
     add = fadd, sub = fsub, mul = fmul, divide_f = fdiv, pow = pw, sqrt_f = sqrt64\<rparr>"

fun pow_nearest :: "double \<Rightarrow> double \<Rightarrow> error + double" where
  "pow_nearest (Finite x) (Finite y) =
     (if of_int \<lfloor>y\<rfloor> = y then
        (if x = 0 \<and> y < 0 then Inl ValueError
         else case to_double (x powi \<lfloor>y\<rfloor>) of
                Finite r \<Rightarrow> Inr (Finite r)
              | _ \<Rightarrow> Inl OverflowError)
      else if x < 0 then Inl ValueError else Inl Unmodelled)"
| "pow_nearest x y = Inl Unmodelled"

definition libm64 :: "double libm" where
  "libm64 = ieee_libm pow_nearest"

section \<open>Temperature conversion\<close>

text \<open>The calibration constants, by the decimal values written in the source.\<close>

definition TMP006_B0 :: rat where "TMP006_B0 = - 294 / 10 ^ 7"
definition TMP006_B1 :: rat where "TMP006_B1 = - 57 / 10 ^ 8"
definition TMP006_B2 :: rat where "TMP006_B2 = 463 / 10 ^ 11"
definition TMP006_C2 :: rat where "TMP006_C2 = 134 / 10"
definition TMP006_TREF :: rat where "TMP006_TREF = 29815 / 100"
definition TMP006_A2 :: rat where "TMP006_A2 = - 1678 / 10 ^ 8"
definition TMP006_A1 :: rat where "TMP006_A1 = 175 / 10 ^ 5"
definition TMP006_S0 :: rat where "TMP006_S0 = 64 / 10"

definition readDieTempC :: "('f, 'z) arith_scheme \<Rightarrow> tmp006 \<Rightarrow> 'f \<times> tmp006" where
  "readDieTempC A s =
    (let (Tdie, s1) = readRawDieTemperature s
     in (mul A (from_int A Tdie) (lit A (3125 / 10 ^ 5)), s1))"

text \<open>
  \<^verbatim>\<open>readObjTempC\<close>. The two register reads and the two debug records come first; the
  thermopile equations that follow them (from \<^verbatim>\<open>Tdie_ref = Tdie - TMP006_TREF\<close> to the
  \<^verbatim>\<open>return\<close>) are \<open>objTempC\<close>. An operation that raises ends the method there.
\<close>

definition bind_err :: "error + 'a \<Rightarrow> ('a \<Rightarrow> error + 'b) \<Rightarrow> error + 'b" where
  "bind_err r f = (case r of Inl e \<Rightarrow> Inl e | Inr x \<Rightarrow> f x)"

definition objTempC :: "('f, 'z) libm_scheme \<Rightarrow> 'f \<Rightarrow> 'f \<Rightarrow> error + 'f" where
  "objTempC M Vobj Tdie =
    (let Tdie_ref = sub M Tdie (lit M TMP006_TREF) in
     bind_err (pow M Tdie_ref (lit M 2)) (\<lambda>p1.
     let S = add M (add M (lit M 1) (mul M (lit M TMP006_A1) Tdie_ref))
                   (mul M (lit M TMP006_A2) p1);
         S = mul M S (lit M TMP006_S0) in
     bind_err (divide_f M S (lit M 10000000)) (\<lambda>S.
     bind_err (divide_f M S (lit M 10000000)) (\<lambda>S.
     bind_err (pow M Tdie_ref (lit M 2)) (\<lambda>p2.
     let Vos = add M (add M (lit M TMP006_B0) (mul M (lit M TMP006_B1) Tdie_ref))
                     (mul M (lit M TMP006_B2) p2) in
     bind_err (pow M (sub M Vobj Vos) (lit M 2)) (\<lambda>p3.
     let fVobj = add M (sub M Vobj Vos) (mul M (lit M TMP006_C2) p3) in
     bind_err (pow M Tdie (lit M 4)) (\<lambda>p4.
     bind_err (divide_f M fVobj S) (\<lambda>q.
     bind_err (sqrt_f M (add M p4 q)) (\<lambda>r.
     bind_err (sqrt_f M r) (\<lambda>Tobj.
     Inr (sub M Tobj (lit M (27315 / 100)))))))))))))"

definition readObjTempC :: "('f, 'z) libm_scheme \<Rightarrow> tmp006 \<Rightarrow> (error + 'f) \<times> tmp006" where
  "readObjTempC M s =
    (let (Tdie, s1) = readRawDieTemperature s;
         (Vobj, s2) = readRawVoltage s1;
         Vobj = mul M (from_int M Vobj) (lit M (15625 / 100));
         s3 = debug LogVobj s2
     in case divide_f M Vobj (lit M 1000000000) of
          Inl e \<Rightarrow> (Inl e, s3)
        | Inr Vobj \<Rightarrow>
            let Tdie = mul M (from_int M Tdie) (lit M (3125 / 10 ^ 5));
                Tdie = add M Tdie (lit M (27314 / 100));
                s4 = debug LogTdie s3
            in (objTempC M Vobj Tdie, s4))"

text \<open>
  The step sequence as the specification words it, for comparison with \<open>readObjTempC\<close>:
  from the shifted raw die temperature and the raw voltage,
  \<open>Vobj = rawVoltage \<times> 156.25 / 1e9\<close>; \<open>Tdie = rawDieTemp \<times> 0.03125 + 273.14\<close>;
  \<open>Tdie_ref = Tdie - 298.15\<close>; \<open>S = 6.4 \<times> (1 + A1\<sqdot>Tdie_ref + A2\<sqdot>Tdie_ref\<^sup>2)\<close>, divided by
  \<open>1e7\<close> twice; \<open>Vos = B0 + B1\<sqdot>Tdie_ref + B2\<sqdot>Tdie_ref\<^sup>2\<close>;
  \<open>fVobj = (Vobj - Vos) + C2\<sqdot>(Vobj - Vos)\<^sup>2\<close>; \<open>Tobj = sqrt (sqrt (Tdie\<^sup>4 + fVobj / S))\<close>;
  the result is \<open>Tobj - 273.15\<close>. Powers are calls of \<open>pow\<close>.
\<close>

definition spec_readObjTempC :: "('f, 'z) libm_scheme \<Rightarrow> int \<Rightarrow> int \<Rightarrow> error + 'f" where
  "spec_readObjTempC M rawDieTemp rawVoltage =
    bind_err (divide_f M (mul M (from_int M rawVoltage) (lit M (15625 / 100))) (lit M (10 ^ 9)))
      (\<lambda>Vobj.
    let Tdie = add M (mul M (from_int M rawDieTemp) (lit M (3125 / 10 ^ 5)))
                     (lit M (27314 / 100));
        Tdie_ref = sub M Tdie (lit M (29815 / 100)) in
    bind_err (pow M Tdie_ref (lit M 2)) (\<lambda>Tdie_ref2.
    let S = mul M (lit M (64 / 10))
              (add M (add M (lit M 1) (mul M (lit M TMP006_A1) Tdie_ref))
                     (mul M (lit M TMP006_A2) Tdie_ref2)) in
    bind_err (divide_f M S (lit M (10 ^ 7))) (\<lambda>S.
    bind_err (divide_f M S (lit M (10 ^ 7))) (\<lambda>S.
    let Vos = add M (add M (lit M TMP006_B0) (mul M (lit M TMP006_B1) Tdie_ref))
                    (mul M (lit M TMP006_B2) Tdie_ref2) in
    bind_err (pow M (sub M Vobj Vos) (lit M 2)) (\<lambda>d2.
    let fVobj = add M (sub M Vobj Vos) (mul M (lit M TMP006_C2) d2) in
    bind_err (pow M Tdie (lit M 4)) (\<lambda>Tdie4.
    bind_err (divide_f M fVobj S) (\<lambda>q.
    bind_err (sqrt_f M (add M Tdie4 q)) (\<lambda>r.
    bind_err (sqrt_f M r) (\<lambda>Tobj.
    Inr (sub M Tobj (lit M (27315 / 100))))))))))))"

section \<open>The results a faithful pow allows\<close>

text \<open>
  With a faithful \<open>pw\<close> each call of \<^verbatim>\<open>math.pow\<close> in \<^verbatim>\<open>readObjTempC\<close> has at most
  two possible values. \<open>readObjTempC_outcomes s\<close> lists what the method can end with, one
  entry for each choice: the candidates for \<open>Tdie_ref\<^sup>2\<close> (its second call has the operands
  of the first, hence its value), then for each the candidates for \<open>(Vobj - Vos)\<^sup>2\<close>, and
  for each of these the candidates for \<open>Tdie\<^sup>4\<close>; the steps between the calls are those of
  \<open>objTempC\<close> in double arithmetic. An entry \<open>Inl Unmodelled\<close> stands for a base that is
  not a finite double of magnitude at most 1024, where nothing is asked of \<open>pw\<close>.
  \<open>covers xs r\<close>: the result \<open>r\<close> is listed in \<open>xs\<close>, unless \<open>xs\<close> has such an entry.
\<close>

definition covers :: "(error + double) list \<Rightarrow> error + double \<Rightarrow> bool" where
  "covers xs r \<longleftrightarrow> r \<in> set xs \<or> Inl Unmodelled \<in> set xs"

definition finish_objTempC :: "double \<Rightarrow> double \<Rightarrow> rat \<Rightarrow> error + double" where
  "finish_objTempC S fVobj p4 =
     bind_err (fdiv fVobj S) (\<lambda>q.
     bind_err (sqrt64 (fadd (Finite p4) q)) (\<lambda>r.
     bind_err (sqrt64 r) (\<lambda>Tobj.
     Inr (fsub Tobj (to_double (27315 / 100))))))"

definition outcomes_fVobj :: "rat list \<Rightarrow> double \<Rightarrow> double \<Rightarrow> rat \<Rightarrow> (error + double) list" where
  "outcomes_fVobj c4 S d p3 =
     (let fVobj = fadd d (fmul (to_double TMP006_C2) (Finite p3))
      in map (finish_objTempC S fVobj) c4)"

definition outcomes_Vos ::
  "rat list \<Rightarrow> double \<Rightarrow> double \<Rightarrow> rat \<Rightarrow> double \<Rightarrow> (error + double) list" where
  "outcomes_Vos c4 Vobj Tdie_ref p1 S =
     (let Vos = fadd (fadd (to_double TMP006_B0) (fmul (to_double TMP006_B1) Tdie_ref))
                    (fmul (to_double TMP006_B2) (Finite p1))
      in case fsub Vobj Vos of
           Finite d \<Rightarrow>
             if \<bar>d\<bar> \<le> 1024
             then concat (map (outcomes_fVobj c4 S (Finite d)) (pow_candidates d 2))
             else [Inl Unmodelled]
         | _ \<Rightarrow> [Inl Unmodelled])"

definition outcomes_S :: "rat list \<Rightarrow> double \<Rightarrow> double \<Rightarrow> rat \<Rightarrow> (error + double) list" where
  "outcomes_S c4 Vobj Tdie_ref p1 =
     (let S = fadd (fadd (to_double 1) (fmul (to_double TMP006_A1) Tdie_ref))
                  (fmul (to_double TMP006_A2) (Finite p1));
          S = fmul S (to_double TMP006_S0)
      in case fdiv S (to_double 10000000) of
           Inl e \<Rightarrow> [Inl e]
         | Inr S \<Rightarrow>
             (case fdiv S (to_double 10000000) of
                Inl e \<Rightarrow> [Inl e]
              | Inr S \<Rightarrow> outcomes_Vos c4 Vobj Tdie_ref p1 S))"

definition objTempC_outcomes :: "double \<Rightarrow> double \<Rightarrow> (error + double) list" where
  "objTempC_outcomes Vobj Tdie =
    (case (fsub Tdie (to_double TMP006_TREF), Tdie) of
       (Finite t, Finite T) \<Rightarrow>
         if \<bar>t\<bar> \<le> 1024 \<and> \<bar>T\<bar> \<le> 1024
         then concat (map (outcomes_S (pow_candidates T 4) Vobj (Finite t)) (pow_candidates t 2))
         else [Inl Unmodelled]
     | _ \<Rightarrow> [Inl Unmodelled])"

definition readObjTempC_outcomes :: "tmp006 \<Rightarrow> (error + double) list" where
  "readObjTempC_outcomes s =
    (let Tdie = fst (readRawDieTemperature s);
         Vobj = fst (readRawVoltage s);
         Vobj = fmul (to_double (of_int Vobj)) (to_double (15625 / 100))
     in case fdiv Vobj (to_double 1000000000) of
          Inl e \<Rightarrow> [Inl e]
        | Inr Vobj \<Rightarrow>
            objTempC_outcomes Vobj
              (fadd (fmul (to_double (of_int Tdie)) (to_double (3125 / 10 ^ 5)))
                    (to_double (27314 / 100))))"

text \<open>A result within \<open>1e-9\<close> of 91.7287932739788, the published output at \<open>warm\<close> below.\<close>

definition near_reference :: "error + double \<Rightarrow> bool" where
  "near_reference r =
    (case r of
       Inr (Finite y) \<Rightarrow> \<bar>y - 917287932739788 / 10 ^ 13\<bar> < 1 / 10 ^ 9
     | _ \<Rightarrow> False)"

section \<open>Sensors used as concrete inputs\<close>

text \<open>
  \<open>blank\<close>: every register zero, nothing sent or logged yet. \<open>genuine\<close>: a sensor
  that answers with the TMP006 identity. \<open>active16\<close>: that sensor after
  \<^verbatim>\<open>begin()\<close> with the default sample rate.
\<close>

definition blank :: tmp006 where
  "blank = \<lparr>regs = (\<lambda>_. 0), bus = [], logged = []\<rparr>"

definition genuine :: tmp006 where
  "genuine = blank\<lparr>regs := (regs blank)(TMP006_MANID := 0x5449, TMP006_DEVID := 0x0067)\<rparr>"

definition active16 :: tmp006 where
  "active16 = snd (begin_tmp006 CFG_16SAMPLE genuine)"

definition with_reg :: "int \<Rightarrow> 16 word \<Rightarrow> tmp006 \<Rightarrow> tmp006" where
  "with_reg reg w s = s\<lparr>regs := (regs s)(reg := w)\<rparr>"

text \<open>
  \<open>warm\<close>: the die register holds 9600 (2400 after the shift, 75 degrees) and the
  voltage register 1000. \<open>cold_target\<close>: the same die reading with the most negative
  voltage, -32768.
\<close>

definition warm :: tmp006 where
  "warm = with_reg TMP006_TAMB 0x2580 (with_reg TMP006_VOBJ 0x03E8 blank)"

definition cold_target :: tmp006 where
  "cold_target = with_reg TMP006_TAMB 0x2580 (with_reg TMP006_VOBJ 0x8000 blank)"

section \<open>Unfolding the methods\<close>

lemmas reg_defs = TMP006_CONFIG_def TMP006_MANID_def TMP006_DEVID_def TMP006_VOBJ_def
  TMP006_TAMB_def

lemmas cfg_defs = TMP006_CFG_RESET_def TMP006_CFG_MODEON_def CFG_1SAMPLE_def CFG_2SAMPLE_def
  CFG_4SAMPLE_def CFG_8SAMPLE_def CFG_16SAMPLE_def TMP006_CFG_DRDYEN_def TMP006_CFG_DRDY_def

lemma uint16_eq_numeral:
  "uint (w :: 16 word) = 0x5449 \<longleftrightarrow> w = 0x5449"
  "uint (w :: 16 word) = 0x0067 \<longleftrightarrow> w = 0x0067"
  by (auto simp: word_uint_eq_iff)

text \<open>What \<^verbatim>\<open>begin\<close> does once the sample rate has passed the membership test.\<close>

lemma begin_valid:
  assumes "samplerate \<in> set [CFG_1SAMPLE, CFG_2SAMPLE, CFG_4SAMPLE, CFG_8SAMPLE, CFG_16SAMPLE]"
  shows "begin_tmp006 samplerate s =
    (Inr (uint (regs s TMP006_MANID) = 0x5449 \<and> uint (regs s TMP006_DEVID) = 0x0067),
     s\<lparr>regs := (regs s)(TMP006_CONFIG :=
              on_wire (byte_swap (TMP006_CFG_MODEON OR TMP006_CFG_DRDYEN OR samplerate))),
       bus := bus s @
         [Write16 TMP006_CONFIG (byte_swap (TMP006_CFG_MODEON OR TMP006_CFG_DRDYEN OR samplerate)),
          ReadU16BE TMP006_MANID, ReadU16BE TMP006_DEVID],
       logged := logged s @
         [LogSamplerate samplerate, LogManufacturerID (uint (regs s TMP006_MANID)),
          LogDeviceID (uint (regs s TMP006_DEVID))]\<rparr>)"
  using assms
  apply (simp add: begin_tmp006_def Let_def split_def write16_def readU16BE_def debug_def
      byte_swap_def reg_defs)
  apply (auto simp: cfg_defs)
  done

lemma sleep_eq:
  "sleep s =
     s\<lparr>regs := (regs s)(TMP006_CONFIG :=
              on_wire (uint (regs s TMP006_CONFIG) AND NOT TMP006_CFG_MODEON)),
       bus := bus s @ [ReadU16BE TMP006_CONFIG,
              Write16 TMP006_CONFIG (uint (regs s TMP006_CONFIG) AND NOT TMP006_CFG_MODEON)],
       logged := logged s @ [LogSleep]\<rparr>"
  by (simp add: sleep_def readU16BE_def write16_def debug_def Let_def)

lemma wake_eq:
  "wake s =
     s\<lparr>regs := (regs s)(TMP006_CONFIG :=
              on_wire (uint (regs s TMP006_CONFIG) OR TMP006_CFG_MODEON)),
       bus := bus s @ [ReadU16BE TMP006_CONFIG,
              Write16 TMP006_CONFIG (uint (regs s TMP006_CONFIG) OR TMP006_CFG_MODEON)],
       logged := logged s @ [LogWake]\<rparr>"
  by (simp add: wake_def readU16BE_def write16_def debug_def Let_def)

lemma active16_eq:
  "active16 =
     \<lparr>regs = (\<lambda>_. 0)(TMP006_MANID := 0x5449, TMP006_DEVID := 0x0067, TMP006_CONFIG := 0x7900),
      bus = [Write16 TMP006_CONFIG 0x0079, ReadU16BE TMP006_MANID, ReadU16BE TMP006_DEVID],
      logged = [LogSamplerate 0x0800, LogManufacturerID 0x5449, LogDeviceID 0x0067]\<rparr>"
  by (simp add: active16_def begin_valid genuine_def blank_def)
     (simp add: reg_defs cfg_defs byte_swap_def on_wire_def)

text \<open>The configuration register after \<^verbatim>\<open>sleep\<close> then \<^verbatim>\<open>wake\<close>, bit by bit.\<close>

lemma sleep_wake_register:
  "regs (wake (sleep s)) TMP006_CONFIG =
     on_wire (uint (on_wire (uint (regs s TMP006_CONFIG) AND NOT TMP006_CFG_MODEON))
       OR TMP006_CFG_MODEON)"
  by (simp add: wake_eq sleep_eq)

lemma on_wire_bit:
  "bit (on_wire v) n \<longleftrightarrow> (n < 8 \<and> bit v (n + 8)) \<or> (8 \<le> n \<and> n < 16 \<and> bit v (n - 8))"
proof -
  have m: "(0xFF::int) = mask 8" by (simp add: mask_eq_exp_minus_1)
  show ?thesis
    unfolding on_wire_def m by (auto simp: bit_simps add.commute)
qed

lemma modeon_bit: "bit TMP006_CFG_MODEON n \<longleftrightarrow> 12 \<le> n \<and> n < 15"
proof -
  have "TMP006_CFG_MODEON = push_bit 12 (mask 3)"
    by (simp add: TMP006_CFG_MODEON_def mask_eq_exp_minus_1 push_bit_eq_mult)
  then have "bit TMP006_CFG_MODEON n \<longleftrightarrow> bit (push_bit 12 (mask 3 :: int)) n"
    by (simp only:)
  also have "\<dots> \<longleftrightarrow> 12 \<le> n \<and> n < 15"
    by (auto simp: bit_push_bit_iff bit_mask_iff)
  finally show ?thesis .
qed

lemma readRawDieTemperature_eq:
  "readRawDieTemperature s =
     (drop_bit 2 (sint (regs s TMP006_TAMB)),
      s\<lparr>bus := bus s @ [ReadS16BE TMP006_TAMB],
        logged := logged s @ [LogRawTemperature (sint (regs s TMP006_TAMB))]\<rparr>)"
  by (simp add: readRawDieTemperature_def readS16BE_def debug_def)

lemma readRawVoltage_eq:
  "readRawVoltage s =
     (sint (regs s TMP006_VOBJ),
      s\<lparr>bus := bus s @ [ReadS16BE TMP006_VOBJ],
        logged := logged s @ [LogRawVoltage (sint (regs s TMP006_VOBJ))]\<rparr>)"
  by (simp add: readRawVoltage_def readS16BE_def debug_def)

lemma raw_die_range:
  "- 8192 \<le> fst (readRawDieTemperature s) \<and> fst (readRawDieTemperature s) \<le> 8191"
proof -
  have "- (2 ^ 15) \<le> sint (regs s TMP006_TAMB)" "sint (regs s TMP006_TAMB) < 2 ^ 15"
    using sint_ge [of "regs s TMP006_TAMB"] sint_lt [of "regs s TMP006_TAMB"] by simp_all
  then show ?thesis
    by (simp add: readRawDieTemperature_eq drop_bit_eq_div) linarith
qed

section \<open>Rounding is exact on short dyadic numbers\<close>

text \<open>
  A number \<open>m \<sqdot> 2\<^sup>p\<close> whose exponent \<open>p\<close> is not below the exponent of the unit in the
  last place of its binade is a double already, so rounding returns it unchanged.
\<close>

lemma round_half_even_of_int: "round_half_even (of_int n) = n"
  by (simp add: round_half_even_def)

lemma bitlen_le: "a < 2 ^ n \<Longrightarrow> bitlen a \<le> int n"
  by (simp add: bitlen_def floorlog_le_iff nat_less_iff)

lemma bitlen_pos: "0 < a \<Longrightarrow> 1 \<le> bitlen a"
  using bitlen_eq_zero_iff [of a] bitlen_nonneg [of a] by linarith

lemma ilog2_less:
  assumes "0 < x" "x < 2 ^ n"
  shows "ilog2 x < int n"
proof (cases "1 \<le> x")
  case True
  have "\<lfloor>x\<rfloor> < 2 ^ n"
    using assms(2) by (simp add: floor_less_iff)
  then have "bitlen \<lfloor>x\<rfloor> \<le> int n" by (rule bitlen_le)
  with True show ?thesis by (simp add: ilog2_def)
next
  case False
  with assms(1) have "1 < 1 / x" by simp
  then have "1 < \<lceil>1 / x\<rceil>" by (simp add: less_ceiling_iff)
  then have "1 \<le> bitlen (\<lceil>1 / x\<rceil> - 1)" by (intro bitlen_pos) simp
  with False show ?thesis by (simp add: ilog2_def)
qed

lemma ilog2_bounds:
  assumes "0 < x"
  shows "2 powi ilog2 x \<le> x" and "x < 2 powi (ilog2 x + 1)"
proof -
  have "2 powi ilog2 x \<le> x \<and> x < 2 powi (ilog2 x + 1)"
  proof (cases "1 \<le> x")
    case True
    define a where "a = \<lfloor>x\<rfloor>"
    have a: "0 < a" using True by (simp add: a_def)
    then have b: "1 \<le> bitlen a" by (rule bitlen_pos)
    from bitlen_bounds [OF a]
    have lo: "2 ^ nat (bitlen a - 1) \<le> a" and hi: "a < 2 ^ nat (bitlen a)" by simp_all
    have "(2::rat) powi (bitlen a - 1) = of_int (2 ^ nat (bitlen a - 1))"
      using b by (simp add: power_int_def)
    also have "\<dots> \<le> of_int a" using lo by (simp only: of_int_le_iff)
    also have "\<dots> \<le> x" by (simp add: a_def)
    finally have 1: "2 powi (bitlen a - 1) \<le> x" .
    have "a + 1 \<le> 2 ^ nat (bitlen a)" using hi by simp
    then have "(of_int (a + 1) :: rat) \<le> of_int (2 ^ nat (bitlen a))"
      by (simp only: of_int_le_iff)
    moreover have "x < of_int (a + 1)" using floor_correct [of x] by (simp add: a_def)
    moreover have "(2::rat) powi bitlen a = of_int (2 ^ nat (bitlen a))"
      using b by (simp add: power_int_def)
    ultimately have 2: "x < 2 powi bitlen a" by simp
    from 1 2 True show ?thesis by (simp add: ilog2_def a_def)
  next
    case False
    define c where "c = \<lceil>1 / x\<rceil>"
    from False assms have "1 < 1 / x" by simp
    then have c: "1 < c" by (simp add: c_def less_ceiling_iff)
    then have pos: "0 < c - 1" by simp
    then have b: "1 \<le> bitlen (c - 1)" by (rule bitlen_pos)
    from bitlen_bounds [OF pos]
    have lo: "2 ^ nat (bitlen (c - 1) - 1) \<le> c - 1" and hi: "c - 1 < 2 ^ nat (bitlen (c - 1))"
      by simp_all
    have p: "(2::rat) powi bitlen (c - 1) = of_int (2 ^ nat (bitlen (c - 1)))"
      using b by (simp add: power_int_def)
    have p1: "(2::rat) powi (bitlen (c - 1) - 1) = of_int (2 ^ nat (bitlen (c - 1) - 1))"
      using b by (simp add: power_int_def)
    have "c \<le> 2 ^ nat (bitlen (c - 1))" using hi by simp
    then have "(of_int c :: rat) \<le> 2 powi bitlen (c - 1)"
      unfolding p by (simp only: of_int_le_iff)
    moreover have "1 / x \<le> of_int c" by (simp add: c_def)
    ultimately have "1 / x \<le> 2 powi bitlen (c - 1)" by simp
    then have 1: "2 powi (- bitlen (c - 1)) \<le> x"
      using assms by (simp add: power_int_minus field_simps)
    have "(of_int (c - 1) :: rat) < 1 / x"
      unfolding c_def by (metis ceiling_correct of_int_diff of_int_1)
    moreover have "(2::rat) powi (bitlen (c - 1) - 1) \<le> of_int (c - 1)"
      unfolding p1 using lo by (simp only: of_int_le_iff)
    ultimately have "2 powi (bitlen (c - 1) - 1) < 1 / x" by simp
    then have "x * 2 powi (bitlen (c - 1) - 1) < 1"
      using assms by (simp add: field_simps)
    then have 2: "x < 2 powi (- bitlen (c - 1) + 1)"
      by (simp add: power_int_minus power_int_diff field_simps)
    from 1 2 False show ?thesis by (simp add: ilog2_def c_def)
  qed
  then show "2 powi ilog2 x \<le> x" and "x < 2 powi (ilog2 x + 1)" by simp_all
qed

lemma ulp_exp_le:
  assumes "x \<noteq> 0" "\<bar>x\<bar> < 2 ^ n" "n \<le> 53"
  shows "ulp_exp x \<le> int n - 53"
proof -
  have "ilog2 \<bar>x\<bar> < int n" using assms(1,2) by (intro ilog2_less) simp_all
  with assms(3) show ?thesis by (simp add: ulp_exp_def)
qed

lemma round64_exact:
  assumes "x = of_int m * 2 powi p" "ulp_exp x \<le> p"
  shows "round64 x = x"
proof (cases "x = 0")
  case True
  then show ?thesis by (simp add: round64_def)
next
  case False
  define e where "e = ulp_exp x"
  define n where "n = m * 2 ^ nat (p - e)"
  have "(2::rat) powi p = 2 powi (p - e) * 2 powi e"
    by (simp add: power_int_add [symmetric])
  moreover have "(2::rat) powi (p - e) = of_int (2 ^ nat (p - e))"
    using assms(2) by (simp add: e_def power_int_def)
  ultimately have x: "x = of_int n * 2 powi e"
    using assms(1) by (simp add: n_def)
  then have "x / 2 powi e = of_int n"
    by simp
  then have "round_half_even (x / 2 powi e) = n"
    by (simp only: round_half_even_of_int)
  moreover have "round64 x = of_int (round_half_even (x / 2 powi e)) * 2 powi e"
    using False by (simp add: round64_def e_def Let_def)
  ultimately show ?thesis
    using x by simp
qed

lemma below_threshold:
  assumes "\<bar>x\<bar> < 2 ^ n" "n \<le> 1024"
  shows "\<bar>x\<bar> < overflow_threshold"
proof -
  have "(2::rat) ^ n \<le> 2 ^ 1024"
    using assms(2) by (intro power_increasing) simp_all
  with assms(1) show ?thesis
    unfolding overflow_threshold_def by (rule less_le_trans)
qed

lemma below_threshold_iff:
  assumes "y \<noteq> 0"
  shows "\<bar>y\<bar> < overflow_threshold \<longleftrightarrow> ilog2 \<bar>y\<bar> < 1024"
proof
  assume "\<bar>y\<bar> < overflow_threshold"
  then have "\<bar>y\<bar> < 2 ^ 1024" by (simp only: overflow_threshold_def)
  with assms have "ilog2 \<bar>y\<bar> < int 1024" by (intro ilog2_less) simp_all
  then show "ilog2 \<bar>y\<bar> < 1024" by simp
next
  assume l: "ilog2 \<bar>y\<bar> < 1024"
  have "\<bar>y\<bar> < 2 powi (ilog2 \<bar>y\<bar> + 1)"
    using assms by (intro ilog2_bounds) simp
  also have "\<dots> \<le> 2 powi 1024"
    using l by (intro power_int_increasing) simp_all
  also have "\<dots> = overflow_threshold"
    unfolding overflow_threshold_def by (simp only: power_int_numeral)
  finally show "\<bar>y\<bar> < overflow_threshold" .
qed

text \<open>The overflow test by the binade, for evaluation.\<close>

lemma to_double_code [code]:
  "to_double x =
    (let y = round64 x
     in if y = 0 \<or> ilog2 \<bar>y\<bar> < 1024 then Finite y else if 0 < x then PInf else NInf)"
proof (cases "round64 x = 0")
  case True
  then show ?thesis by (simp add: to_double_def overflow_threshold_def)
next
  case False
  then show ?thesis by (simp add: to_double_def Let_def below_threshold_iff)
qed

lemma to_double_exact:
  assumes "x = of_int m * 2 powi p" "ulp_exp x \<le> p" "\<bar>x\<bar> < overflow_threshold"
  shows "to_double x = Finite x"
  using assms(3) by (simp add: to_double_def round64_exact [OF assms(1,2)])

lemma to_double_0: "to_double 0 = Finite 0"
  by (simp add: to_double_def round64_def overflow_threshold_def)

lemma to_double_of_int:
  assumes "\<bar>k\<bar> < 2 ^ 53"
  shows "to_double (of_int k) = Finite (of_int k)"
proof (cases "k = 0")
  case True
  then show ?thesis by (simp add: to_double_0)
next
  case False
  have lt: "\<bar>of_int k :: rat\<bar> < 2 ^ 53"
    using assms by (metis of_int_abs of_int_less_numeral_power_cancel_iff)
  then have "ulp_exp (of_int k) \<le> int 53 - 53"
    using False by (intro ulp_exp_le) simp_all
  then have "ulp_exp (of_int k) \<le> 0" by simp
  moreover have "\<bar>of_int k :: rat\<bar> < overflow_threshold"
    using lt by (rule below_threshold) simp
  moreover have "(of_int k :: rat) = of_int k * 2 powi 0" by simp
  ultimately show ?thesis
    by (intro to_double_exact [where m = k and p = 0])
qed

lemma to_double_32nd:
  assumes "\<bar>k\<bar> < 2 ^ 48"
  shows "to_double (of_int k / 32) = Finite (of_int k / 32)"
proof (cases "k = 0")
  case True
  then show ?thesis by (simp add: to_double_0)
next
  case False
  have "\<bar>of_int k :: rat\<bar> < 2 ^ 48"
    using assms by (metis of_int_abs of_int_less_numeral_power_cancel_iff)
  then have lt: "\<bar>of_int k / 32 :: rat\<bar> < 2 ^ 48" by simp
  then have "ulp_exp (of_int k / 32) \<le> int 48 - 53"
    using False by (intro ulp_exp_le) simp_all
  then have "ulp_exp (of_int k / 32) \<le> - 5" by simp
  moreover have "\<bar>of_int k / 32 :: rat\<bar> < overflow_threshold"
    using lt by (rule below_threshold) simp
  moreover have "(of_int k / 32 :: rat) = of_int k * 2 powi (- 5)"
    by (simp add: power_int_minus field_simps)
  ultimately show ?thesis
    by (intro to_double_exact [where m = k and p = "- 5"])
qed

lemma lit_32nd: "to_double (1 / 32) = Finite (1 / 32)"
  using to_double_32nd [of 1] by simp

lemma readDieTempC_product:
  "fst (readDieTempC A s) =
     mul A (from_int A (fst (readRawDieTemperature s))) (lit A (3125 / 10 ^ 5))"
  by (simp add: readDieTempC_def split_def Let_def)

lemma readDieTempC_exact:
  "fst (readDieTempC binary64 s) = Finite (of_int (fst (readRawDieTemperature s)) / 32)"
proof -
  define k where "k = fst (readRawDieTemperature s)"
  have k: "- 8192 \<le> k" "k \<le> 8191"
    using raw_die_range [of s] by (simp_all add: k_def)
  then have "\<bar>k\<bar> < 2 ^ 53" "\<bar>k\<bar> < 2 ^ 48" by simp_all
  then have "to_double (of_int k) = Finite (of_int k)"
    and "to_double (of_int k / 32) = Finite (of_int k / 32)"
    by (simp_all only: to_double_of_int to_double_32nd)
  then have "fmul (to_double (of_int k)) (to_double (3125 / 10 ^ 5)) = Finite (of_int k / 32)"
    by (simp add: lit_32nd)
  then show ?thesis
    by (simp add: readDieTempC_product binary64_def k_def)
qed

section \<open>The rounding is to nearest, the square root is the integer square root\<close>

text \<open>
  \<open>round64 x\<close> lies within half a unit in the last place of \<open>x\<close>, and \<open>isqrt q\<close>
  is the largest integer whose square does not exceed \<open>q\<close>.
\<close>

lemma round_half_even_nearest: "\<bar>of_int (round_half_even q) - q\<bar> \<le> 1 / 2"
proof -
  have "of_int \<lfloor>q\<rfloor> \<le> q" "q < of_int \<lfloor>q\<rfloor> + 1"
    by linarith+
  then show ?thesis
    by (auto simp: round_half_even_def Let_def abs_le_iff)
qed

lemma round64_nearest:
  "\<bar>round64 x - x\<bar> \<le> 2 powi ulp_exp x / 2"
proof (cases "x = 0")
  case True
  then show ?thesis by (simp add: round64_def)
next
  case False
  define u :: rat where "u = 2 powi ulp_exp x"
  have u: "0 < u" by (simp add: u_def)
  have "round64 x - x = (of_int (round_half_even (x / u)) - x / u) * u"
    using False u by (simp add: round64_def u_def [symmetric] Let_def field_simps)
  then have "\<bar>round64 x - x\<bar> = \<bar>of_int (round_half_even (x / u)) - x / u\<bar> * u"
    using u by (simp add: abs_mult)
  also have "\<dots> \<le> 1 / 2 * u"
    using u round_half_even_nearest [of "x / u"] by (intro mult_right_mono) simp_all
  finally show ?thesis by (simp add: u_def)
qed

lemma isqrt_bits_correct:
  assumes "r * r \<le> q" "q < (r + 2 ^ k) * (r + 2 ^ k)"
  shows "isqrt_bits k q r * isqrt_bits k q r \<le> q
    \<and> q < (isqrt_bits k q r + 1) * (isqrt_bits k q r + 1)"
  using assms
proof (induction k arbitrary: r)
  case 0
  then show ?case by simp
next
  case (Suc k)
  show ?case
  proof (cases "(r + 2 ^ k) * (r + 2 ^ k) \<le> q")
    case True
    have "r + 2 ^ k + 2 ^ k = r + 2 ^ Suc k" by simp
    with Suc.prems(2) have "q < (r + 2 ^ k + 2 ^ k) * (r + 2 ^ k + 2 ^ k)" by (simp only:)
    with True Suc.IH [of "r + 2 ^ k"] show ?thesis by (simp add: Let_def)
  next
    case False
    then have "q < (r + 2 ^ k) * (r + 2 ^ k)" by simp
    with False Suc.prems(1) Suc.IH [of r] show ?thesis by (simp add: Let_def)
  qed
qed

lemma isqrt_correct:
  assumes "0 \<le> q"
  shows "isqrt q * isqrt q \<le> q \<and> q < (isqrt q + 1) * (isqrt q + 1)"
proof -
  have "q < 2 ^ nat (bitlen q)"
  proof (cases "q = 0")
    case True
    then show ?thesis by simp
  next
    case False
    with assms have "0 < q" by simp
    then show ?thesis using bitlen_bounds [of q] by simp
  qed
  moreover have "(2::int) ^ nat (bitlen q) * 1 \<le> 2 ^ nat (bitlen q) * 2 ^ nat (bitlen q)"
    by (intro mult_left_mono) simp_all
  ultimately have "q < 2 ^ nat (bitlen q) * 2 ^ nat (bitlen q)" by linarith
  then have "q < (0 + 2 ^ nat (bitlen q)) * (0 + 2 ^ nat (bitlen q))" by simp
  with assms show ?thesis
    unfolding isqrt_def by (intro isqrt_bits_correct) simp_all
qed

section \<open>Rounding by integer arithmetic\<close>

text \<open>
  The binade and the rounding computed on the numerator and the denominator of the
  argument, with one integer division: the equations used for evaluation.
\<close>

lemma ilog2_code [code]:
  "ilog2 x = (let (a, b) = quotient_of x
              in if b \<le> a then bitlen (a div b) - 1 else - bitlen (- ((- b) div a) - 1))"
proof -
  obtain a b where q: "quotient_of x = (a, b)" by (cases "quotient_of x")
  then have b: "0 < b" and x: "x = of_int a / of_int b"
    by (simp_all add: quotient_of_denom_pos quotient_of_div)
  have "1 \<le> x \<longleftrightarrow> b \<le> a"
    using b by (simp add: x le_divide_eq)
  moreover have "\<lfloor>x\<rfloor> = a div b"
    by (simp add: x floor_divide_of_int_eq)
  moreover have "\<lceil>1 / x\<rceil> = - ((- b) div a)"
    by (simp add: x ceiling_divide_eq_div)
  ultimately show ?thesis
    by (simp add: ilog2_def q)
qed

lemma round_half_even_div:
  assumes "0 < den"
  shows "round_half_even (of_int num / of_int den) =
    (let f = num div den; r = 2 * (num mod den)
     in if r < den then f else if den < r then f + 1 else if even f then f else f + 1)"
proof -
  define f where "f = num div den"
  define m where "m = num mod den"
  have fl: "\<lfloor>of_int num / of_int den :: rat\<rfloor> = f"
    by (simp add: f_def floor_divide_of_int_eq)
  have "num = den * f + m" by (simp add: f_def m_def)
  then have "(of_int num :: rat) = of_int den * of_int f + of_int m"
    by (metis of_int_add of_int_mult)
  then have fr: "(of_int num / of_int den :: rat) - of_int f = of_int m / of_int den"
    using assms by (simp add: field_simps)
  have lt: "(of_int m / of_int den :: rat) < 1 / 2 \<longleftrightarrow> 2 * m < den"
  proof -
    have "(of_int m / of_int den :: rat) < 1 / 2 \<longleftrightarrow> (of_int (2 * m) :: rat) < of_int den"
      using assms by (simp add: field_simps)
    then show ?thesis by (simp only: of_int_less_iff)
  qed
  have gt: "1 / 2 < (of_int m / of_int den :: rat) \<longleftrightarrow> den < 2 * m"
  proof -
    have "1 / 2 < (of_int m / of_int den :: rat) \<longleftrightarrow> (of_int den :: rat) < of_int (2 * m)"
      using assms by (simp add: field_simps)
    then show ?thesis by (simp only: of_int_less_iff)
  qed
  show ?thesis
    unfolding round_half_even_def Let_def fl fr lt gt
    by (simp add: f_def m_def)
qed

lemma round64_code [code]:
  "round64 x =
    (let (a, b) = quotient_of x in
     if a = 0 then 0
     else let e = ulp_exp x;
              num = (if e \<le> 0 then a * 2 ^ nat (- e) else a);
              den = (if e \<le> 0 then b else b * 2 ^ nat e);
              f = num div den;
              r = 2 * (num mod den);
              n = (if r < den then f else if den < r then f + 1
                   else if even f then f else f + 1)
          in if e \<le> 0 then Rat.Fract n (2 ^ nat (- e)) else of_int (n * 2 ^ nat e))"
proof -
  obtain a b where q: "quotient_of x = (a, b)" by (cases "quotient_of x")
  then have b: "0 < b" and x: "x = of_int a / of_int b"
    by (simp_all add: quotient_of_denom_pos quotient_of_div)
  have z: "x = 0 \<longleftrightarrow> a = 0" using b by (simp add: x)
  define e where "e = ulp_exp x"
  show ?thesis
  proof (cases "e \<le> 0")
    case True
    define k where "k = nat (- e)"
    have u: "(2::rat) powi e = 1 / of_int (2 ^ k)"
      using True by (simp add: k_def power_int_def field_simps)
    have "x / 2 powi e = of_int (a * 2 ^ k) / of_int b"
      by (simp add: u x)
    then have "round_half_even (x / 2 powi e) =
        (let f = (a * 2 ^ k) div b; r = 2 * ((a * 2 ^ k) mod b)
         in if r < b then f else if b < r then f + 1 else if even f then f else f + 1)"
      using round_half_even_div [OF b, of "a * 2 ^ k"] by simp
    then show ?thesis
      using True
      by (simp add: round64_def q z e_def [symmetric] k_def [symmetric] Let_def u
          Fract_of_int_quotient)
  next
    case False
    define k where "k = nat e"
    have u: "(2::rat) powi e = of_int (2 ^ k)"
      using False by (simp add: k_def power_int_def)
    have pos: "0 < b * 2 ^ k" using b by simp
    have "x / 2 powi e = of_int a / of_int (b * 2 ^ k)"
      by (simp add: u x)
    then have "round_half_even (x / 2 powi e) =
        (let f = a div (b * 2 ^ k); r = 2 * (a mod (b * 2 ^ k))
         in if r < b * 2 ^ k then f else if b * 2 ^ k < r then f + 1
            else if even f then f else f + 1)"
      using round_half_even_div [OF pos, of a] by simp
    then show ?thesis
      using False by (simp add: round64_def q z e_def [symmetric] k_def [symmetric] Let_def u)
  qed
qed

lemma fmul_commute: "fmul x y = fmul y x"
  by (cases x; cases y) (simp_all add: mult.commute)

section \<open>The correctly rounded power is faithful\<close>

lemma round_half_even_cases: "round_half_even q = \<lfloor>q\<rfloor> \<or> round_half_even q = \<lceil>q\<rceil>"
proof (cases "q = of_int \<lfloor>q\<rfloor>")
  case True
  then have "q - of_int \<lfloor>q\<rfloor> = 0" by simp
  then show ?thesis by (simp add: round_half_even_def Let_def)
next
  case False
  then have "\<lceil>q\<rceil> = \<lfloor>q\<rfloor> + 1" by (simp add: ceiling_altdef)
  then show ?thesis by (auto simp: round_half_even_def Let_def)
qed

lemma round64_candidate:
  "round64 v = of_int \<lfloor>v / 2 powi ulp_exp v\<rfloor> * 2 powi ulp_exp v
   \<or> round64 v = of_int \<lceil>v / 2 powi ulp_exp v\<rceil> * 2 powi ulp_exp v"
proof (cases "v = 0")
  case True
  then show ?thesis by (simp add: round64_def)
next
  case False
  then show ?thesis
    using round_half_even_cases [of "v / 2 powi ulp_exp v"]
    by (auto simp: round64_def Let_def)
qed

lemma round64_below_threshold:
  assumes "\<bar>v\<bar> \<le> 2 ^ 52"
  shows "\<bar>round64 v\<bar> < overflow_threshold"
proof (cases "v = 0")
  case True
  then show ?thesis by (simp add: round64_def overflow_threshold_def)
next
  case False
  have "\<bar>v\<bar> < 2 ^ 53" using assms by (rule le_less_trans) simp
  then have "ulp_exp v \<le> int 53 - 53"
    using False by (intro ulp_exp_le) simp_all
  then have "(2::rat) powi ulp_exp v \<le> 2 powi 0"
    by (intro power_int_increasing) simp_all
  then have u: "(2::rat) powi ulp_exp v \<le> 1" by simp
  have "\<bar>round64 v\<bar> \<le> \<bar>round64 v - v\<bar> + \<bar>v\<bar>" by simp
  also have "\<dots> \<le> 2 powi ulp_exp v / 2 + \<bar>v\<bar>"
    using round64_nearest [of v] by simp
  also have "\<dots> \<le> 1 / 2 + 2 ^ 52" using u assms by simp
  also have "\<dots> < 2 ^ 53" by simp
  finally have "\<bar>round64 v\<bar> < 2 ^ 53" .
  then show ?thesis by (rule below_threshold) simp
qed

lemma pow_nearest_faithful: "faithful_pow pow_nearest"
  unfolding faithful_pow_def
proof (intro allI impI)
  fix x :: rat and n :: int
  assume a: "\<bar>x\<bar> \<le> 1024 \<and> (n = 2 \<or> n = 4)"
  define v where "v = x powi n"
  have "\<bar>v\<bar> = \<bar>x\<bar> powi n" by (simp add: v_def power_int_abs)
  also have "\<dots> \<le> 1024 powi n"
    using a by (intro power_int_mono) auto
  also have "\<dots> \<le> 2 ^ 52" using a by auto
  finally have "\<bar>round64 v\<bar> < overflow_threshold" by (rule round64_below_threshold)
  then have t: "to_double v = Finite (round64 v)" by (simp add: to_double_def)
  have "round64 v \<in> set (pow_candidates x n)"
    using round64_candidate [of v] by (auto simp: pow_candidates_def v_def Let_def)
  moreover have "pow_nearest (Finite x) (Finite (of_int n)) = Inr (Finite (round64 v))"
    using a t by (auto simp: v_def)
  ultimately show "\<exists>r\<in>set (pow_candidates x n).
      pow_nearest (Finite x) (Finite (of_int n)) = Inr (Finite r)"
    by blast
qed

section \<open>Every result is among the outcomes\<close>

lemma to_double_2: "to_double 2 = Finite 2"
  using to_double_of_int [of 2] by simp

lemma to_double_4: "to_double 4 = Finite 4"
  using to_double_of_int [of 4] by simp

lemma coversI: "r \<in> set xs \<Longrightarrow> covers xs r"
  by (simp add: covers_def)

lemma covers_concat: "x \<in> set xs \<Longrightarrow> covers (f x) r \<Longrightarrow> covers (concat (map f xs)) r"
  by (auto simp: covers_def)

lemma faithful_powD:
  assumes "faithful_pow pw" "\<bar>x\<bar> \<le> 1024"
  obtains r2 r4 where "r2 \<in> set (pow_candidates x 2)" "pw (Finite x) (Finite 2) = Inr (Finite r2)"
    "r4 \<in> set (pow_candidates x 4)" "pw (Finite x) (Finite 4) = Inr (Finite r4)"
proof -
  from assms have "\<exists>r\<in>set (pow_candidates x 2). pw (Finite x) (Finite (of_int 2)) = Inr (Finite r)"
    unfolding faithful_pow_def by blast
  moreover from assms
  have "\<exists>r\<in>set (pow_candidates x 4). pw (Finite x) (Finite (of_int 4)) = Inr (Finite r)"
    unfolding faithful_pow_def by blast
  ultimately show ?thesis using that by auto
qed

lemma objTempC_covered:
  assumes F: "faithful_pow pw"
  shows "covers (objTempC_outcomes Vobj Tdie) (objTempC (ieee_libm pw) Vobj Tdie)"
proof -
  have "objTempC_outcomes Vobj Tdie = [Inl Unmodelled]
      \<or> (\<exists>t T. fsub Tdie (to_double TMP006_TREF) = Finite t \<and> Tdie = Finite T
            \<and> \<bar>t\<bar> \<le> 1024 \<and> \<bar>T\<bar> \<le> 1024)"
    by (cases "fsub Tdie (to_double TMP006_TREF)"; cases Tdie)
       (simp_all add: objTempC_outcomes_def)
  then consider (out) "objTempC_outcomes Vobj Tdie = [Inl Unmodelled]"
    | (fin) t T where "fsub Tdie (to_double TMP006_TREF) = Finite t" "Tdie = Finite T"
        "\<bar>t\<bar> \<le> 1024" "\<bar>T\<bar> \<le> 1024"
    by blast
  then show ?thesis
  proof cases
    case out
    then show ?thesis by (simp add: covers_def)
  next
    case fin
    from F fin(3) obtain r1 where r1: "r1 \<in> set (pow_candidates t 2)"
      "pw (Finite t) (Finite 2) = Inr (Finite r1)"
      by (rule faithful_powD)
    from F fin(4) obtain r4 where r4: "r4 \<in> set (pow_candidates T 4)"
      "pw (Finite T) (Finite 4) = Inr (Finite r4)"
      by (rule faithful_powD)
    have ft: "fsub (Finite T) (to_double TMP006_TREF) = Finite t"
      using fin(1,2) by simp
    note fin' = ft fin(2)
    let ?c4 = "pow_candidates T 4"
    have "covers (outcomes_S ?c4 Vobj (Finite t) r1) (objTempC (ieee_libm pw) Vobj Tdie)"
    proof -
      let ?S0 = "fmul (fadd (fadd (to_double 1) (fmul (to_double TMP006_A1) (Finite t)))
                  (fmul (to_double TMP006_A2) (Finite r1))) (to_double TMP006_S0)"
      let ?Vos = "fadd (fadd (to_double TMP006_B0) (fmul (to_double TMP006_B1) (Finite t)))
                    (fmul (to_double TMP006_B2) (Finite r1))"
      show ?thesis
      proof (cases "fdiv ?S0 (to_double 10000000)")
        case (Inl e)
        then show ?thesis
          by (simp add: objTempC_def outcomes_S_def ieee_libm_def Let_def fin' r1 to_double_2
              covers_def bind_err_def)
      next
        case S1: (Inr S1)
        show ?thesis
        proof (cases "fdiv S1 (to_double 10000000)")
          case (Inl e)
          then show ?thesis
            using S1
            by (simp add: objTempC_def outcomes_S_def ieee_libm_def Let_def fin' r1 to_double_2
                covers_def bind_err_def)
        next
          case S: (Inr S)
          have "outcomes_Vos ?c4 Vobj (Finite t) r1 S = [Inl Unmodelled]
              \<or> (\<exists>d. fsub Vobj ?Vos = Finite d \<and> \<bar>d\<bar> \<le> 1024)"
            by (cases "fsub Vobj ?Vos") (simp_all add: outcomes_Vos_def Let_def)
          then consider (out2) "outcomes_Vos ?c4 Vobj (Finite t) r1 S = [Inl Unmodelled]"
            | (fin2) d where "fsub Vobj ?Vos = Finite d" "\<bar>d\<bar> \<le> 1024"
            by blast
          then show ?thesis
          proof cases
            case out2
            then show ?thesis
              using S1 S by (simp add: outcomes_S_def Let_def covers_def)
          next
            case fin2
            from F fin2(2) obtain r3 where r3: "r3 \<in> set (pow_candidates d 2)"
              "pw (Finite d) (Finite 2) = Inr (Finite r3)"
              by (rule faithful_powD)
            have "objTempC (ieee_libm pw) Vobj Tdie =
                finish_objTempC S (fadd (Finite d) (fmul (to_double TMP006_C2) (Finite r3))) r4"
              using S1 S
              by (simp add: objTempC_def finish_objTempC_def ieee_libm_def Let_def fin' r1 r3 r4
                  fin2 to_double_2 to_double_4 bind_err_def)
            moreover have "finish_objTempC S (fadd (Finite d) (fmul (to_double TMP006_C2) (Finite r3))) r4
                \<in> set (outcomes_S ?c4 Vobj (Finite t) r1)"
              using S1 S r3(1) r4(1)
              by (auto simp: outcomes_S_def outcomes_Vos_def outcomes_fVobj_def Let_def fin2)
            ultimately show ?thesis by (simp add: covers_def)
          qed
        qed
      qed
    qed
    with r1(1) have "covers (concat (map (outcomes_S ?c4 Vobj (Finite t)) (pow_candidates t 2)))
        (objTempC (ieee_libm pw) Vobj Tdie)"
      by (rule covers_concat)
    then show ?thesis
      by (simp add: objTempC_outcomes_def fin' fin(3,4))
  qed
qed

lemma readObjTempC_covered:
  assumes "faithful_pow pw"
  shows "covers (readObjTempC_outcomes s) (fst (readObjTempC (ieee_libm pw) s))"
proof -
  let ?V = "fmul (to_double (of_int (fst (readRawVoltage s)))) (to_double (15625 / 100))"
  let ?T = "fadd (fmul (to_double (of_int (fst (readRawDieTemperature s))))
              (to_double (3125 / 10 ^ 5))) (to_double (27314 / 100))"
  show ?thesis
  proof (cases "fdiv ?V (to_double 1000000000)")
    case (Inl e)
    then show ?thesis
      by (simp add: readObjTempC_def readObjTempC_outcomes_def readRawDieTemperature_eq
          readRawVoltage_eq ieee_libm_def Let_def covers_def)
  next
    case (Inr V)
    then have "fst (readObjTempC (ieee_libm pw) s) = objTempC (ieee_libm pw) V ?T"
      by (simp add: readObjTempC_def readRawDieTemperature_eq readRawVoltage_eq
          ieee_libm_def Let_def)
    moreover have "readObjTempC_outcomes s = objTempC_outcomes V ?T"
      using Inr by (simp add: readObjTempC_outcomes_def Let_def)
    ultimately show ?thesis
      using objTempC_covered [OF assms, of V ?T] by simp
  qed
qed

section \<open>The outcomes at two sensors\<close>

text \<open>
  At \<open>cold_target\<close> every outcome is \<^verbatim>\<open>ValueError\<close>: the sum under the square root
  is negative whichever candidates are taken. At \<open>warm\<close> every outcome is a value within
  \<open>1e-9\<close> of 91.7287932739788.
\<close>

lemma cold_target_outcomes:
  "list_all (\<lambda>r. r = Inl ValueError) (readObjTempC_outcomes cold_target)"
  by code_simp

lemma warm_outcomes: "list_all near_reference (readObjTempC_outcomes warm)"
  by code_simp

lemma readObjTempC_raises:
  assumes "faithful_pow pw"
  shows "fst (readObjTempC (ieee_libm pw) cold_target) = Inl ValueError"
  using readObjTempC_covered [OF assms, of cold_target] cold_target_outcomes
  by (auto simp: covers_def list_all_iff)

lemma readObjTempC_warm_value:
  assumes "faithful_pow pw"
  shows "near_reference (fst (readObjTempC (ieee_libm pw) warm))"
proof -
  have all: "\<forall>r\<in>set (readObjTempC_outcomes warm). near_reference r"
    using warm_outcomes by (simp only: list_all_iff)
  moreover have "\<not> near_reference (Inl Unmodelled)"
    by (simp add: near_reference_def)
  ultimately have "Inl Unmodelled \<notin> set (readObjTempC_outcomes warm)" by blast
  with readObjTempC_covered [OF assms, of warm]
  have "fst (readObjTempC (ieee_libm pw) warm) \<in> set (readObjTempC_outcomes warm)"
    by (simp add: covers_def)
  with all show ?thesis by blast
qed

section \<open>Claims\<close>

subsection \<open>C1: the object temperature\<close>

text \<open>
  C1 as stated: for every pair of raw inputs \<^verbatim>\<open>readObjTempC\<close> returns the result of
  the step sequence. It is false for the die reading 9600 (2400 after the shift) with the
  raw voltage -32768: the sum \<open>Tdie\<^sup>4 + fVobj / S\<close> is negative there, \<^verbatim>\<open>math.sqrt\<close>
  raises \<^verbatim>\<open>ValueError\<close>, and \<^verbatim>\<open>readObjTempC\<close> returns nothing. That is so for
  every faithful \<^verbatim>\<open>pow\<close> (\<open>readObjTempC_raises\<close>); the statement below is its instance
  at the correctly rounded one.
\<close>

theorem readObjTempC_raises_counterexample:
  "fst (readObjTempC libm64 cold_target) = Inl ValueError"
  using readObjTempC_raises [OF pow_nearest_faithful] by (simp add: libm64_def)

text \<open>
  C1, amended: in any arithmetic whose multiplication commutes, as that of doubles does,
  \<^verbatim>\<open>readObjTempC\<close> ends as the step sequence does on the shifted raw die temperature
  and the raw voltage: with the value of the sequence, computed in the stated order with
  the two successive divisions by \<open>1e7\<close>, or with the exception of the first step that
  raises.
\<close>

theorem readObjTempC_follows_step_sequence:
  assumes "\<forall>x y. mul M x y = mul M y x"
  shows "fst (readObjTempC M s) =
     spec_readObjTempC M (fst (readRawDieTemperature s)) (fst (readRawVoltage s))"
proof -
  have c: "mul M x y = mul M y x" for x y using assms by blast
  show ?thesis
    unfolding readObjTempC_def objTempC_def spec_readObjTempC_def
      readRawDieTemperature_eq readRawVoltage_eq
    by (auto simp: Let_def TMP006_TREF_def TMP006_S0_def c [of _ "lit M (32 / 5)"]
        bind_err_def split: sum.splits)
qed

text \<open>
  At the die reading 9600 with the raw voltage 1000 the method returns the value of the
  sequence, and that value lies within \<open>1e-9\<close> of 91.7287932739788 (for every faithful
  \<^verbatim>\<open>pow\<close>, by \<open>readObjTempC_warm_value\<close>).
\<close>

theorem readObjTempC_follows_step_sequence_witness:
  "fst (readRawDieTemperature warm) = 2400 \<and> fst (readRawVoltage warm) = 1000
   \<and> fst (readObjTempC libm64 warm) = spec_readObjTempC libm64 2400 1000
   \<and> near_reference (fst (readObjTempC libm64 warm))"
proof -
  have d: "fst (readRawDieTemperature warm) = 2400"
    by (simp add: readRawDieTemperature_eq warm_def with_reg_def blank_def reg_defs)
  have v: "fst (readRawVoltage warm) = 1000"
    by (simp add: readRawVoltage_eq warm_def with_reg_def blank_def reg_defs)
  have c: "\<forall>x y. mul libm64 x y = mul libm64 y x"
    by (simp add: libm64_def ieee_libm_def fmul_commute)
  have "fst (readObjTempC libm64 warm) = spec_readObjTempC libm64 2400 1000"
    using readObjTempC_follows_step_sequence [OF c, of warm] by (simp only: d v)
  moreover have "near_reference (fst (readObjTempC libm64 warm))"
    using readObjTempC_warm_value [OF pow_nearest_faithful] by (simp add: libm64_def)
  ultimately show ?thesis
    using d v by simp
qed

subsection \<open>C2: which sample rates \<^verbatim>\<open>begin\<close> rejects\<close>

text \<open>
  C2 as stated: \<^verbatim>\<open>begin\<close> fails if and only if the sample rate is not one of the
  integers 1, 2, 4, 8, 16. It is false at sample rate 1: the membership test of the code is
  against the five bit masks \<^verbatim>\<open>CFG_1SAMPLE\<close> \<dots> \<^verbatim>\<open>CFG_16SAMPLE\<close>, and 1 is none of
  them, so \<^verbatim>\<open>begin(1)\<close> raises.
\<close>

theorem begin_sample_count_counterexample:
  "\<not> (fst (begin_tmp006 1 blank) = Inl ValueError \<longleftrightarrow> (1::int) \<notin> {1, 2, 4, 8, 16})"
  by (simp add: begin_tmp006_def cfg_defs)

text \<open>
  C2, amended: \<^verbatim>\<open>begin(samplerate)\<close> raises if and only if \<^verbatim>\<open>samplerate\<close> is not
  one of the bit masks 0x0000, 0x0200, 0x0400, 0x0600, 0x0800; the error is
  \<^verbatim>\<open>ValueError\<close>, and the object is left as it was: no register was written or read,
  nothing was logged.
\<close>

theorem begin_rejects_unknown_samplerate:
  "(isl (fst (begin_tmp006 samplerate s)) \<longleftrightarrow>
      samplerate \<notin> {0x0000, 0x0200, 0x0400, 0x0600, 0x0800})
   \<and> (isl (fst (begin_tmp006 samplerate s)) \<longrightarrow>
      fst (begin_tmp006 samplerate s) = Inl ValueError \<and> snd (begin_tmp006 samplerate s) = s)"
  by (simp add: begin_tmp006_def cfg_defs Let_def split_def)

theorem begin_rejects_unknown_samplerate_witness:
  "isl (fst (begin_tmp006 3 blank)) \<and> fst (begin_tmp006 3 blank) = Inl ValueError
   \<and> snd (begin_tmp006 3 blank) = blank \<and> bus (snd (begin_tmp006 3 blank)) = []"
  using begin_rejects_unknown_samplerate [of 3 blank] by (simp add: blank_def)

subsection \<open>C3: the configuration word and its byte swap\<close>

text \<open>
  C3 as stated: for every valid sample rate, 1, 2, 4, 8 or 16, \<^verbatim>\<open>begin\<close> builds the
  configuration word with the bit mask the table gives for it and writes its byte swap.
  It is false at the sample rate 16: \<^verbatim>\<open>begin\<close> has no table lookup, 16 is not one of
  the bit masks, so \<^verbatim>\<open>begin(16)\<close> raises and writes nothing, where the claim has the
  byte swap of \<open>0x7000 | 0x0100 | 0x0800\<close> written.
\<close>

theorem begin_sample_count_writes_nothing_counterexample:
  "fst (begin_tmp006 16 blank) = Inl ValueError
   \<and> bus (snd (begin_tmp006 16 blank)) = []
   \<and> written 0x02 (bus (snd (begin_tmp006 16 blank)))
       \<noteq> [byte_swap (0x7000 OR 0x0100 OR 0x0800)]"
  by (simp add: begin_tmp006_def cfg_defs blank_def)

text \<open>
  C3, amended: for each of the five sample rates, passed as its bit-mask constant
  \<^verbatim>\<open>CFG_1SAMPLE\<close> \<dots> \<^verbatim>\<open>CFG_16SAMPLE\<close> (0x0000, 0x0200, 0x0400, 0x0600, 0x0800),
  \<^verbatim>\<open>begin\<close> builds the word \<open>0x7000 | 0x0100 | samplerate\<close>; its only write is to
  register 0x02, with the byte swap of that word, followed by the reads of registers 0xFE
  and 0xFF; the sensor's configuration register then holds the word itself, whose mode-on
  and data-ready-enable bits are set and whose sample-rate field (bits 9 to 11) is the
  constant passed.
\<close>

theorem begin_writes_swapped_config:
  "samplerate \<in> set [CFG_1SAMPLE, CFG_2SAMPLE, CFG_4SAMPLE, CFG_8SAMPLE, CFG_16SAMPLE] \<Longrightarrow>
   (let config = 0x7000 OR 0x0100 OR samplerate in
      bus (snd (begin_tmp006 samplerate s)) =
        bus s @ [Write16 0x02 (byte_swap config), ReadU16BE 0xFE, ReadU16BE 0xFF]
    \<and> regs (snd (begin_tmp006 samplerate s)) 0x02 = word_of_int config
    \<and> config AND 0x7000 = 0x7000 \<and> config AND 0x0100 = 0x0100
    \<and> config AND 0x0E00 = samplerate)
   \<and> [CFG_1SAMPLE, CFG_2SAMPLE, CFG_4SAMPLE, CFG_8SAMPLE, CFG_16SAMPLE]
       = [0x0000, 0x0200, 0x0400, 0x0600, 0x0800]"
  apply (simp add: begin_valid Let_def)
  apply (auto simp: cfg_defs reg_defs byte_swap_def on_wire_def)
  done

theorem begin_writes_swapped_config_witness:
  "CFG_4SAMPLE \<in> set [CFG_1SAMPLE, CFG_2SAMPLE, CFG_4SAMPLE, CFG_8SAMPLE, CFG_16SAMPLE]
   \<and> bus (snd (begin_tmp006 CFG_4SAMPLE blank)) =
       [Write16 0x02 0x0075, ReadU16BE 0xFE, ReadU16BE 0xFF]
   \<and> regs (snd (begin_tmp006 CFG_4SAMPLE blank)) 0x02 = 0x7500"
  using begin_writes_swapped_config [of CFG_4SAMPLE blank]
  by (simp add: cfg_defs blank_def byte_swap_def)

subsection \<open>C4: the identity check\<close>

text \<open>
  C4: with a valid sample rate, \<^verbatim>\<open>begin\<close> writes the configuration word, then reads
  register 0xFE and register 0xFF, in this order and nothing else, and returns normally;
  what it returns is true exactly when register 0xFE holds 0x5449 and register 0xFF holds
  0x0067. The two values read are the ones logged, and the write leaves both registers as
  they were.
\<close>

theorem begin_verifies_identity:
  "samplerate \<in> set [CFG_1SAMPLE, CFG_2SAMPLE, CFG_4SAMPLE, CFG_8SAMPLE, CFG_16SAMPLE] \<Longrightarrow>
   fst (begin_tmp006 samplerate s) = Inr (regs s 0xFE = 0x5449 \<and> regs s 0xFF = 0x0067)
   \<and> bus (snd (begin_tmp006 samplerate s)) =
       bus s @ [Write16 0x02 (byte_swap (0x7000 OR 0x0100 OR samplerate)),
                ReadU16BE 0xFE, ReadU16BE 0xFF]
   \<and> logged (snd (begin_tmp006 samplerate s)) =
       logged s @ [LogSamplerate samplerate, LogManufacturerID (uint (regs s 0xFE)),
                   LogDeviceID (uint (regs s 0xFF))]
   \<and> regs (snd (begin_tmp006 samplerate s)) 0xFE = regs s 0xFE
   \<and> regs (snd (begin_tmp006 samplerate s)) 0xFF = regs s 0xFF"
  by (simp add: begin_valid uint16_eq_numeral reg_defs cfg_defs)

theorem begin_verifies_identity_witness:
  "CFG_16SAMPLE \<in> set [CFG_1SAMPLE, CFG_2SAMPLE, CFG_4SAMPLE, CFG_8SAMPLE, CFG_16SAMPLE]
   \<and> fst (begin_tmp006 CFG_16SAMPLE genuine) = Inr True
   \<and> fst (begin_tmp006 CFG_16SAMPLE blank) = Inr False
   \<and> bus (snd (begin_tmp006 CFG_16SAMPLE genuine)) =
       [Write16 0x02 0x0079, ReadU16BE 0xFE, ReadU16BE 0xFF]
   \<and> logged (snd (begin_tmp006 CFG_16SAMPLE genuine)) =
       [LogSamplerate 0x0800, LogManufacturerID 0x5449, LogDeviceID 0x0067]"
  using begin_verifies_identity [of CFG_16SAMPLE genuine]
    begin_verifies_identity [of CFG_16SAMPLE blank]
  by (simp add: genuine_def blank_def reg_defs cfg_defs byte_swap_def)

subsection \<open>C5: \<^verbatim>\<open>sleep\<close> and \<^verbatim>\<open>wake\<close> write without the byte swap\<close>

text \<open>
  C5 asks that every configuration value be byte-swapped before \<^verbatim>\<open>write16\<close>, in
  \<^verbatim>\<open>begin\<close>, \<^verbatim>\<open>sleep\<close> and \<^verbatim>\<open>wake\<close>. \<^verbatim>\<open>begin\<close> does it; \<^verbatim>\<open>sleep\<close> and
  \<^verbatim>\<open>wake\<close> do not. On the sensor left by \<^verbatim>\<open>begin()\<close>, whose configuration register
  holds 0x7900, \<^verbatim>\<open>sleep\<close> passes 0x0900 (the word read, mode-on cleared) where the swapped
  value is 0x0009, and the register ends as 0x0009; \<^verbatim>\<open>wake\<close> then passes 0x7009 and the
  register ends as 0x0970.
\<close>

theorem sleep_wake_write_unswapped:
  "regs active16 TMP006_CONFIG = 0x7900
   \<and> written TMP006_CONFIG (bus (sleep active16)) = [0x0079, 0x0900]
   \<and> byte_swap 0x0900 = 0x0009
   \<and> regs (sleep active16) TMP006_CONFIG = 0x0009
   \<and> written TMP006_CONFIG (bus (wake (sleep active16))) = [0x0079, 0x0900, 0x7009]
   \<and> regs (wake (sleep active16)) TMP006_CONFIG = 0x0970"
  by (simp add: wake_eq sleep_eq active16_eq)
     (simp add: reg_defs cfg_defs byte_swap_def on_wire_def)

subsection \<open>C6: \<^verbatim>\<open>sleep\<close> followed by \<^verbatim>\<open>wake\<close>\<close>

text \<open>
  C6 asks that \<^verbatim>\<open>sleep()\<close> then \<^verbatim>\<open>wake()\<close> leave the mode-on field of the
  configuration register as it was before \<^verbatim>\<open>sleep()\<close>. The code leaves the field
  cleared, whatever the register held: \<^verbatim>\<open>sleep\<close> and \<^verbatim>\<open>wake\<close> write without the
  byte swap (C5), so the bits that \<^verbatim>\<open>wake\<close> sets reach the low byte of the register. On
  the sensor left by \<^verbatim>\<open>begin()\<close> the field was 0x7000 and the register ends as 0x0970.
\<close>

theorem sleep_wake_clears_mode_on:
  "mode_on (uint (regs (wake (sleep s)) TMP006_CONFIG)) = 0
   \<and> mode_on (uint (regs active16 TMP006_CONFIG)) = 0x7000
   \<and> regs (wake (sleep active16)) TMP006_CONFIG = 0x0970"
proof -
  have "bit (mode_on (uint (regs (wake (sleep s)) TMP006_CONFIG))) n = bit (0::int) n" for n
    unfolding sleep_wake_register mode_on_def
    by (auto simp: bit_and_iff bit_or_iff bit_not_iff bit_uint_iff on_wire_bit modeon_bit)
  then have "mode_on (uint (regs (wake (sleep s)) TMP006_CONFIG)) = 0"
    by (rule bit_eqI)
  moreover have "mode_on (uint (regs active16 TMP006_CONFIG)) = 0x7000"
    by (simp add: active16_eq) (simp add: reg_defs cfg_defs mode_on_def)
  moreover have "regs (wake (sleep active16)) TMP006_CONFIG = 0x0970"
    by (simp add: wake_eq sleep_eq active16_eq)
       (simp add: reg_defs cfg_defs on_wire_def)
  ultimately show ?thesis by simp
qed

subsection \<open>C7: the raw die temperature\<close>

text \<open>
  C7: \<^verbatim>\<open>readRawDieTemperature\<close> reads register 0x01 once, as a signed value, and
  returns it shifted right by two with the sign kept, which is its floor division by 4;
  it changes no register.
\<close>

theorem readRawDieTemperature_shift:
  "fst (readRawDieTemperature s) = sint (regs s 0x01) div 4
   \<and> fst (readRawDieTemperature s) = sint (signed_drop_bit 2 (regs s 0x01))
   \<and> regs (snd (readRawDieTemperature s)) = regs s
   \<and> bus (snd (readRawDieTemperature s)) = bus s @ [ReadS16BE 0x01]"
  by (simp add: readRawDieTemperature_eq reg_defs sint_signed_drop_bit_eq drop_bit_eq_div)

theorem readRawDieTemperature_shift_witness:
  "fst (readRawDieTemperature (with_reg 0x01 0xFFFB blank)) = - 2
   \<and> fst (readRawDieTemperature (with_reg 0x01 0x2580 blank)) = 2400"
  using readRawDieTemperature_shift [of "with_reg 0x01 0xFFFB blank"]
    readRawDieTemperature_shift [of "with_reg 0x01 0x2580 blank"]
  by (simp add: with_reg_def blank_def)

subsection \<open>C8: the die temperature in degrees Celsius\<close>

text \<open>
  C8: \<^verbatim>\<open>readDieTempC\<close> returns the double product of the raw die temperature and
  0.03125, and that product is exact: the finite double whose value is the raw count
  times 0.03125. For a register of 0x0000 (or 0x0003: the shifted count is 0) it is 0.0,
  and for a register of 0x0004 it is 0.03125.
\<close>

theorem readDieTempC_is_count_times_32nd:
  "fst (readDieTempC binary64 s) =
     fmul (to_double (of_int (fst (readRawDieTemperature s)))) (to_double (3125 / 10 ^ 5))
   \<and> fst (readDieTempC binary64 s) =
     Finite (of_int (fst (readRawDieTemperature s)) * (3125 / 10 ^ 5))
   \<and> fst (readDieTempC binary64 (with_reg TMP006_TAMB 0x0000 s)) = Finite 0
   \<and> fst (readDieTempC binary64 (with_reg TMP006_TAMB 0x0003 s)) = Finite 0
   \<and> fst (readDieTempC binary64 (with_reg TMP006_TAMB 0x0004 s)) = Finite (3125 / 10 ^ 5)"
  apply (intro conjI)
      apply (simp add: readDieTempC_product binary64_def)
     apply (simp add: readDieTempC_exact)
    apply (simp_all add: readDieTempC_exact readRawDieTemperature_eq with_reg_def)
  done

theorem readDieTempC_is_count_times_32nd_witness:
  "fst (readDieTempC binary64 (with_reg TMP006_TAMB 0x2580 blank)) = Finite 75
   \<and> fst (readDieTempC binary64 (with_reg TMP006_TAMB 0x0004 blank)) = Finite (1 / 32)"
proof -
  have "fst (readDieTempC binary64 (with_reg TMP006_TAMB 0x2580 blank)) =
      Finite (of_int (fst (readRawDieTemperature (with_reg TMP006_TAMB 0x2580 blank)))
        * (3125 / 10 ^ 5))"
    using readDieTempC_is_count_times_32nd [of "with_reg TMP006_TAMB 0x2580 blank"] by blast
  moreover have "fst (readRawDieTemperature (with_reg TMP006_TAMB 0x2580 blank)) = 2400"
    by (simp add: readRawDieTemperature_eq with_reg_def)
  moreover have "fst (readDieTempC binary64 (with_reg TMP006_TAMB 0x0004 blank))
      = Finite (3125 / 10 ^ 5)"
    using readDieTempC_is_count_times_32nd [of blank] by blast
  ultimately show ?thesis
    by simp
qed

subsection \<open>C9: the range of the die temperature\<close>

text \<open>
  C9: whatever the 16-bit register holds, the raw die temperature lies between -8192
  and 8191, and \<^verbatim>\<open>readDieTempC\<close> returns a finite double between -256.0 and
  255.96875.
\<close>

theorem die_temperature_range:
  "- 8192 \<le> fst (readRawDieTemperature s) \<and> fst (readRawDieTemperature s) \<le> 8191
   \<and> (\<exists>q. fst (readDieTempC binary64 s) = Finite q \<and> - 256 \<le> q \<and> q \<le> 25596875 / 10 ^ 5)"
proof -
  have k: "- 8192 \<le> fst (readRawDieTemperature s)" "fst (readRawDieTemperature s) \<le> 8191"
    using raw_die_range [of s] by simp_all
  then have "- 8192 \<le> (of_int (fst (readRawDieTemperature s)) :: rat)"
    and "(of_int (fst (readRawDieTemperature s)) :: rat) \<le> 8191"
    by (simp_all only: of_int_le_iff [symmetric, where 'a = rat] of_int_numeral of_int_minus)
  then have "- 256 \<le> (of_int (fst (readRawDieTemperature s)) / 32 :: rat)"
    and "(of_int (fst (readRawDieTemperature s)) / 32 :: rat) \<le> 25596875 / 10 ^ 5"
    by simp_all
  then have "\<exists>q. fst (readDieTempC binary64 s) = Finite q \<and> - 256 \<le> q
      \<and> q \<le> 25596875 / 10 ^ 5"
    unfolding readDieTempC_exact by blast
  with k show ?thesis
    by blast
qed

theorem die_temperature_range_witness:
  "fst (readRawDieTemperature (with_reg TMP006_TAMB 0x8000 blank)) = - 8192
   \<and> fst (readRawDieTemperature (with_reg TMP006_TAMB 0x7FFF blank)) = 8191
   \<and> fst (readDieTempC binary64 (with_reg TMP006_TAMB 0x8000 blank)) = Finite (- 256)
   \<and> fst (readDieTempC binary64 (with_reg TMP006_TAMB 0x7FFF blank))
       = Finite (25596875 / 10 ^ 5)"
  using die_temperature_range [of "with_reg TMP006_TAMB 0x8000 blank"]
    die_temperature_range [of "with_reg TMP006_TAMB 0x7FFF blank"]
  by (simp add: readDieTempC_exact readRawDieTemperature_eq with_reg_def)

subsection \<open>C10: what the object temperature depends on\<close>

text \<open>
  C10: whatever the arithmetic, two objects whose registers 0x01 and 0x00 hold the same
  values give the same result of \<^verbatim>\<open>readObjTempC\<close>, a value or an exception, whatever
  their other registers, their bus history and their log.
\<close>

theorem readObjTempC_depends_on_reads:
  "regs s TMP006_TAMB = regs s' TMP006_TAMB \<Longrightarrow> regs s TMP006_VOBJ = regs s' TMP006_VOBJ \<Longrightarrow>
   fst (readObjTempC M s) = fst (readObjTempC M s')"
  by (simp add: readObjTempC_def readRawDieTemperature_eq readRawVoltage_eq Let_def
      split: sum.splits)

theorem readObjTempC_depends_on_reads_witness:
  "regs (with_reg TMP006_TAMB 0x2580 (with_reg TMP006_VOBJ 1000 blank)) TMP006_TAMB
     = regs (wake (sleep (with_reg TMP006_TAMB 0x2580 (with_reg TMP006_VOBJ 1000 active16))))
         TMP006_TAMB
   \<and> regs (with_reg TMP006_TAMB 0x2580 (with_reg TMP006_VOBJ 1000 blank)) TMP006_CONFIG
     \<noteq> regs (wake (sleep (with_reg TMP006_TAMB 0x2580 (with_reg TMP006_VOBJ 1000 active16))))
         TMP006_CONFIG
   \<and> fst (readObjTempC libm64 (with_reg TMP006_TAMB 0x2580 (with_reg TMP006_VOBJ 1000 blank)))
     = fst (readObjTempC libm64
         (wake (sleep (with_reg TMP006_TAMB 0x2580 (with_reg TMP006_VOBJ 1000 active16)))))"
proof -
  let ?a = "with_reg TMP006_TAMB 0x2580 (with_reg TMP006_VOBJ 1000 blank)"
  let ?b = "wake (sleep (with_reg TMP006_TAMB 0x2580 (with_reg TMP006_VOBJ 1000 active16)))"
  have t: "regs ?a TMP006_TAMB = regs ?b TMP006_TAMB"
    by (simp add: wake_eq sleep_eq with_reg_def active16_eq blank_def) (simp add: reg_defs)
  have v: "regs ?a TMP006_VOBJ = regs ?b TMP006_VOBJ"
    by (simp add: wake_eq sleep_eq with_reg_def active16_eq blank_def) (simp add: reg_defs)
  have c: "regs ?a TMP006_CONFIG \<noteq> regs ?b TMP006_CONFIG"
    by (simp add: wake_eq sleep_eq with_reg_def active16_eq blank_def)
       (simp add: reg_defs cfg_defs on_wire_def)
  show ?thesis
    using t c readObjTempC_depends_on_reads [OF t v, of libm64] by simp
qed

end
